theory Spec2Isabelle
  imports Complex_Main "HOL-Library.Multiset"
begin

section \<open>Data model\<close>

text \<open>
  The interfaces \<^verbatim>\<open>Participant\<close>, \<^verbatim>\<open>Expense\<close> and \<^verbatim>\<open>Balance\<close> of the type declarations,
  and the transaction objects \<^verbatim>\<open>{from, to, amount}\<close> built by the two settlement memos of
  the \<^verbatim>\<open>ExpenseSplitter\<close> component. Field names carry a prefix where the source name is
  taken in HOL (\<^verbatim>\<open>id\<close>, \<^verbatim>\<open>from\<close>, \<^verbatim>\<open>to\<close>) or used by two interfaces (\<^verbatim>\<open>amount\<close>).

  JavaScript numbers are modelled as real numbers: identifiers are the integers produced by
  \<^verbatim>\<open>Date.now()\<close>, amounts are reals, and the rounding of IEEE doubles is not modelled. The
  one not-a-number value the code produces on purpose (a missing conversion rate) is a
  constructor of its own, see \<open>conversion\<close> below.
\<close>

record Participant =
  p_id :: int
  p_name :: string

record Expense =
  e_id :: int
  description :: string
  e_amount :: real
  currency :: string
  paidById :: int
  sharedByIds :: "int list"

record Balance =
  participant :: Participant
  amount :: real

record Transaction =
  t_from :: string
  t_to :: string
  t_amount :: real

text \<open>The two state cells of the component that the ledger operations read and write.\<close>

record Ledger =
  participants :: "Participant list"
  expenses :: "Expense list"

text \<open>The tolerance \<^verbatim>\<open>0.01\<close> that every comparison of the settlement code uses.\<close>

definition epsilon :: real where
  "epsilon = 1 / 100"

section \<open>Ledger operations\<close>

text \<open>
  \<^verbatim>\<open>removeParticipant\<close>: strip the id from every sharer list, then keep the expenses whose
  payer is someone else and whose stripped sharer list is not empty; drop the participant.
\<close>

definition removeParticipant :: "int \<Rightarrow> Ledger \<Rightarrow> Ledger" where
  "removeParticipant i l =
     (let updatedExpenses =
            filter (\<lambda>ex. paidById ex \<noteq> i \<and> length (sharedByIds ex) > 0)
              (map (\<lambda>ex. ex\<lparr>sharedByIds := filter (\<lambda>pId. pId \<noteq> i) (sharedByIds ex)\<rparr>)
                 (expenses l))
      in l\<lparr>expenses := updatedExpenses,
           participants := filter (\<lambda>p. p_id p \<noteq> i) (participants l)\<rparr>)"

text \<open>
  \<^verbatim>\<open>addExpense\<close> takes an expense without id and appends it with the id \<^verbatim>\<open>Date.now()\<close>;
  the clock reading is the parameter \<open>now\<close>. The function has no check of any kind.
\<close>

record ExpenseInput =
  i_description :: string
  i_amount :: real
  i_currency :: string
  i_paidById :: int
  i_sharedByIds :: "int list"

definition addExpense :: "ExpenseInput \<Rightarrow> int \<Rightarrow> Ledger \<Rightarrow> Ledger" where
  "addExpense expense now l =
     l\<lparr>expenses := expenses l @
        [\<lparr>e_id = now, description = i_description expense, e_amount = i_amount expense,
          currency = i_currency expense, paidById = i_paidById expense,
          sharedByIds = i_sharedByIds expense\<rparr>]\<rparr>"

definition removeExpense :: "int \<Rightarrow> Ledger \<Rightarrow> Ledger" where
  "removeExpense i l = l\<lparr>expenses := filter (\<lambda>ex. e_id ex \<noteq> i) (expenses l)\<rparr>"

text \<open>
  \<^verbatim>\<open>AddExpenseModal.handleSubmit\<close>, the only caller of \<^verbatim>\<open>addExpense\<close>. The form holds the
  description, the result of \<^verbatim>\<open>parseFloat(amount)\<close> (\<open>None\<close> when it is not a number), the
  currency, the selected payer (\<^verbatim>\<open>undefined\<close> when the modal was opened without
  participants) and the ticked sharers. The guard is JavaScript truthiness: a non-empty
  description, an amount above zero, a payer id that is defined and not \<open>0\<close>, and at least
  one sharer. When the guard fails nothing happens: there is no error value.
\<close>

record ExpenseForm =
  f_description :: string
  f_numericAmount :: "real option"
  f_currency :: string
  f_paidById :: "int option"
  f_sharedByIds :: "int list"

definition handleSubmit :: "ExpenseForm \<Rightarrow> int \<Rightarrow> Ledger \<Rightarrow> Ledger" where
  "handleSubmit form now l =
     (case (f_numericAmount form, f_paidById form) of
        (Some numericAmount, Some payer) \<Rightarrow>
          if f_description form \<noteq> [] \<and> numericAmount > 0 \<and> payer \<noteq> 0
             \<and> length (f_sharedByIds form) > 0
          then addExpense
                 \<lparr>i_description = f_description form, i_amount = numericAmount,
                  i_currency = f_currency form, i_paidById = payer,
                  i_sharedByIds = f_sharedByIds form\<rparr> now l
          else l
      | _ \<Rightarrow> l)"

section \<open>Currency conversion and balances\<close>

text \<open>
  \<^verbatim>\<open>convertToBase\<close> is a closure over \<^verbatim>\<open>baseCurrency\<close> and \<^verbatim>\<open>conversionRates\<close>, which are
  parameters here. The rate table is \<^verbatim>\<open>Record<string, number> | null\<close>: \<open>None\<close> is
  \<^verbatim>\<open>null\<close>, and a table maps a currency to its rate when the entry is a number. The result
  is a number, the not-a-number value returned for a missing rate, or the exception that
  reading a property of \<^verbatim>\<open>null\<close> raises.
\<close>

datatype conversion = Number real | NaN | Throws

definition convertToBase ::
  "string \<Rightarrow> (string \<rightharpoonup> real) option \<Rightarrow> real \<Rightarrow> string \<Rightarrow> conversion" where
  "convertToBase baseCurrency conversionRates amt fromCurrency =
     (if fromCurrency = baseCurrency then Number amt
      else case conversionRates of
             None \<Rightarrow> Throws
           | Some rates \<Rightarrow>
               (case rates fromCurrency of
                  None \<Rightarrow> NaN
                | Some rate \<Rightarrow> Number (amt * rate)))"

text \<open>
  The balance map: \<^verbatim>\<open>balanceMap.get(k) ?? 0\<close> and the two updates of the loop body.
  When the sharer list is empty the share \<^verbatim>\<open>convertedAmount / 0\<close> is computed and never
  used, so the value HOL gives to a division by zero does not matter.
\<close>

definition getOrZero :: "(int \<rightharpoonup> real) \<Rightarrow> int \<Rightarrow> real" where
  "getOrZero balanceMap k = (case balanceMap k of None \<Rightarrow> 0 | Some v \<Rightarrow> v)"

definition debitShare :: "real \<Rightarrow> int \<Rightarrow> (int \<rightharpoonup> real) \<Rightarrow> (int \<rightharpoonup> real)" where
  "debitShare share participantId balanceMap =
     balanceMap(participantId \<mapsto> getOrZero balanceMap participantId - share)"

definition applyExpense :: "real \<Rightarrow> Expense \<Rightarrow> (int \<rightharpoonup> real) \<Rightarrow> (int \<rightharpoonup> real)" where
  "applyExpense convertedAmount expense balanceMap =
     (let payerBalance = getOrZero balanceMap (paidById expense);
          m1 = balanceMap(paidById expense \<mapsto> payerBalance + convertedAmount);
          share = convertedAmount / real (length (sharedByIds expense))
      in fold (debitShare share) (sharedByIds expense) m1)"

datatype js_error = TypeError

fun expensesLoop ::
  "string \<Rightarrow> (string \<rightharpoonup> real) option \<Rightarrow> Expense list \<Rightarrow> (int \<rightharpoonup> real)
     \<Rightarrow> js_error + (int \<rightharpoonup> real)" where
  "expensesLoop baseCurrency conversionRates [] balanceMap = Inr balanceMap"
| "expensesLoop baseCurrency conversionRates (expense # rest) balanceMap =
     (case convertToBase baseCurrency conversionRates (e_amount expense) (currency expense) of
        Throws \<Rightarrow> Inl TypeError
      | NaN \<Rightarrow> expensesLoop baseCurrency conversionRates rest balanceMap
      | Number convertedAmount \<Rightarrow>
          expensesLoop baseCurrency conversionRates rest
            (applyExpense convertedAmount expense balanceMap))"

text \<open>
  \<^verbatim>\<open>ratesError\<close> is \<^verbatim>\<open>string | null\<close> and is tested for truthiness: \<^verbatim>\<open>null\<close> and the empty
  string both count as no error.
\<close>

definition truthy :: "string option \<Rightarrow> bool" where
  "truthy s = (case s of None \<Rightarrow> False | Some t \<Rightarrow> t \<noteq> [])"

text \<open>
  \<^verbatim>\<open>new Map(participants.map(p => [p.id, 0]))\<close>: one entry per participant id, a later
  pair replacing an earlier one with the same key.
\<close>

definition initialMap :: "Participant list \<Rightarrow> (int \<rightharpoonup> real)" where
  "initialMap ps = map_of (rev (map (\<lambda>p. (p_id p, 0)) ps))"

text \<open>
  The \<^verbatim>\<open>balances\<close> memo. The final \<^verbatim>\<open>sort((a, b) => b.amount - a.amount)\<close> is a stable
  sort into descending amounts, which is \<open>sort_key\<close> on the negated amount.
\<close>

definition balances ::
  "Participant list \<Rightarrow> Expense list \<Rightarrow> string \<Rightarrow> (string \<rightharpoonup> real) option \<Rightarrow> string option
     \<Rightarrow> js_error + Balance list" where
  "balances ps es baseCurrency conversionRates ratesError =
     (if length ps = 0 \<or> conversionRates = None \<or> truthy ratesError then Inr []
      else case expensesLoop baseCurrency conversionRates es (initialMap ps) of
             Inl err \<Rightarrow> Inl err
           | Inr balanceMap \<Rightarrow>
               Inr (sort_key (\<lambda>b. - amount b)
                      (map (\<lambda>p. \<lparr>participant = p, amount = getOrZero balanceMap (p_id p)\<rparr>) ps)))"

section \<open>Settlement\<close>

text \<open>
  Both settlement memos start from the same two lists: the balances above the tolerance,
  and the balances below minus the tolerance with their amount replaced by its absolute
  value. Both keep the order of the balance list.
\<close>

definition creditorsOf :: "Balance list \<Rightarrow> Balance list" where
  "creditorsOf bs = filter (\<lambda>b. amount b > epsilon) bs"

definition debtorsOf :: "Balance list \<Rightarrow> Balance list" where
  "debtorsOf bs = map (\<lambda>b. b\<lparr>amount := \<bar>amount b\<bar>\<rparr>) (filter (\<lambda>b. amount b < - epsilon) bs)"

text \<open>
  \<^verbatim>\<open>simplifiedSettleTransactions\<close>. The state of the \<^verbatim>\<open>while\<close> loop is the two arrays of
  copies, whose amounts the body overwrites, the transactions pushed so far and the two
  indices. \<open>settleStep\<close> is one run of the body. The loop may run forever, so \<open>settleLoop\<close>
  takes fuel: it tests the loop condition once per unit and is \<open>None\<close> when the fuel is
  used up before the condition fails.
\<close>

record SettleState =
  debtors :: "Balance list"
  creditors :: "Balance list"
  transactions :: "Transaction list"
  debtorIndex :: nat
  creditorIndex :: nat

definition settleStep :: "SettleState \<Rightarrow> SettleState" where
  "settleStep s =
     (let debtor = debtors s ! debtorIndex s;
          creditor = creditors s ! creditorIndex s;
          amountToSettle = min (amount debtor) (amount creditor);
          s1 = (if amountToSettle > epsilon
                then s\<lparr>transactions := transactions s @
                         [\<lparr>t_from = p_name (participant debtor),
                           t_to = p_name (participant creditor),
                           t_amount = amountToSettle\<rparr>],
                       debtors := (debtors s)[debtorIndex s :=
                         debtor\<lparr>amount := amount debtor - amountToSettle\<rparr>],
                       creditors := (creditors s)[creditorIndex s :=
                         creditor\<lparr>amount := amount creditor - amountToSettle\<rparr>]\<rparr>
                else s);
          s2 = (if amount (debtors s1 ! debtorIndex s1) < epsilon
                then s1\<lparr>debtorIndex := debtorIndex s1 + 1\<rparr> else s1);
          s3 = (if amount (creditors s2 ! creditorIndex s2) < epsilon
                then s2\<lparr>creditorIndex := creditorIndex s2 + 1\<rparr> else s2)
      in s3)"

fun settleLoop :: "nat \<Rightarrow> SettleState \<Rightarrow> Transaction list option" where
  "settleLoop 0 s = None"
| "settleLoop (Suc fuel) s =
     (if debtorIndex s < length (debtors s) \<and> creditorIndex s < length (creditors s)
      then settleLoop fuel (settleStep s)
      else Some (transactions s))"

definition simplifiedSettleTransactions :: "nat \<Rightarrow> Balance list \<Rightarrow> Transaction list option" where
  "simplifiedSettleTransactions fuel bs =
     settleLoop fuel
       \<lparr>debtors = debtorsOf bs, creditors = creditorsOf bs, transactions = [],
        debtorIndex = 0, creditorIndex = 0\<rparr>"

text \<open>
  \<^verbatim>\<open>detailedSettleTransactions\<close>: every debtor pays every creditor the creditor's part of
  the total credit, and a payment is listed when it is above the tolerance.
\<close>

definition payment :: "real \<Rightarrow> Balance \<Rightarrow> Balance \<Rightarrow> real" where
  "payment totalCredit debtor creditor =
     (let proportion = amount creditor / totalCredit in amount debtor * proportion)"


text \<open>
  The loop seen from the two indices on: \<open>greedy\<close> works on the parts of the two arrays
  that the indices have not passed, the current debtor and creditor at the heads, and
  returns the transactions pushed from here on. \<open>pushed\<close> is what one run of the body
  pushes, \<open>remainder b other\<close> is the entry \<open>b\<close> after that run against \<open>other\<close>, and
  \<open>keep\<close> moves past an entry whose amount is below the tolerance. These are devices of
  the proofs, shown below to agree with \<open>settleLoop\<close>.
\<close>

definition pays :: "Balance \<Rightarrow> Balance \<Rightarrow> bool" where
  "pays d c = (min (amount d) (amount c) > epsilon)"

definition pushed :: "Balance \<Rightarrow> Balance \<Rightarrow> Transaction list" where
  "pushed d c =
     (if pays d c
      then [\<lparr>t_from = p_name (participant d), t_to = p_name (participant c),
             t_amount = min (amount d) (amount c)\<rparr>]
      else [])"

definition remainder :: "Balance \<Rightarrow> Balance \<Rightarrow> Balance" where
  "remainder b other =
     (if pays b other then b\<lparr>amount := amount b - min (amount b) (amount other)\<rparr> else b)"

definition keep :: "Balance \<Rightarrow> Balance list \<Rightarrow> Balance list" where
  "keep b rest = (if amount b < epsilon then rest else b # rest)"

fun greedy :: "nat \<Rightarrow> Balance list \<Rightarrow> Balance list \<Rightarrow> Transaction list option" where
  "greedy 0 ds cs = None"
| "greedy (Suc fuel) [] cs = Some []"
| "greedy (Suc fuel) (d # ds) [] = Some []"
| "greedy (Suc fuel) (d # ds) (c # cs) =
     map_option (\<lambda>rest. pushed d c @ rest)
       (greedy fuel (keep (remainder d c) ds) (keep (remainder c d) cs))"

text \<open>What a list of transactions moves into, and out of, a participant name.\<close>

definition received :: "string \<Rightarrow> Transaction list \<Rightarrow> real" where
  "received nm txs = sum_list (map t_amount (filter (\<lambda>t. t_to t = nm) txs))"

definition paid :: "string \<Rightarrow> Transaction list \<Rightarrow> real" where
  "paid nm txs = sum_list (map t_amount (filter (\<lambda>t. t_from t = nm) txs))"

section \<open>Notions used to state the properties\<close>

text \<open>
  A participant id is live when some participant of the list carries it. An expense is
  well formed for a participant list when its payer and all its sharers are live and it
  has at least one sharer.
\<close>

definition live :: "Participant list \<Rightarrow> int \<Rightarrow> bool" where
  "live ps k = (k \<in> set (map p_id ps))"

definition wellFormed :: "Participant list \<Rightarrow> Expense \<Rightarrow> bool" where
  "wellFormed ps e =
     (live ps (paidById e) \<and> list_all (live ps) (sharedByIds e) \<and> sharedByIds e \<noteq> [])"

text \<open>The sum of a balance list, and the amount it records for one participant.\<close>

definition total :: "Balance list \<Rightarrow> real" where
  "total bs = sum_list (map amount bs)"

definition amountOf :: "Balance list \<Rightarrow> Participant \<Rightarrow> real" where
  "amountOf bs p = (case find (\<lambda>b. participant b = p) bs of None \<Rightarrow> 0 | Some b \<Rightarrow> amount b)"


text \<open>
  What one expense adds to the map entry of the id \<open>k\<close> when the table is present: the
  converted amount if \<open>k\<close> paid, minus one share for every occurrence of \<open>k\<close> among the
  sharers; nothing when the conversion gives no number. \<open>net\<close> adds this up over the
  ledger. Both are proved below to be what the loop of \<open>balances\<close> computes. \<open>effect\<close>
  is the same change written for a given converted amount \<open>v\<close>, without any conversion.
\<close>

definition effect :: "real \<Rightarrow> Expense \<Rightarrow> int \<Rightarrow> real" where
  "effect v e k =
     (if paidById e = k then v else 0)
       - v / real (length (sharedByIds e)) * real (count_list (sharedByIds e) k)"

definition contribution :: "string \<Rightarrow> (string \<rightharpoonup> real) \<Rightarrow> Expense \<Rightarrow> int \<Rightarrow> real" where
  "contribution baseCurrency rates e k =
     (case convertToBase baseCurrency (Some rates) (e_amount e) (currency e) of
        Number v \<Rightarrow> (if paidById e = k then v else 0)
                     - v / real (length (sharedByIds e)) * real (count_list (sharedByIds e) k)
      | _ \<Rightarrow> 0)"

definition net :: "string \<Rightarrow> (string \<rightharpoonup> real) \<Rightarrow> Expense list \<Rightarrow> int \<Rightarrow> real" where
  "net baseCurrency rates es k = (\<Sum>e\<leftarrow>es. contribution baseCurrency rates e k)"

text \<open>
  Transactions name their parties by participant name, so the name is what ties a
  transaction to a creditor or a debtor. \<open>swapTx\<close> exchanges the two parties.
\<close>

definition nameOf :: "Balance \<Rightarrow> string" where
  "nameOf b = p_name (participant b)"

definition swapTx :: "Transaction \<Rightarrow> Transaction" where
  "swapTx t = \<lparr>t_from = t_to t, t_to = t_from t, t_amount = t_amount t\<rparr>"



definition listed :: "real \<Rightarrow> Balance \<Rightarrow> Balance \<Rightarrow> real" where
  "listed totalCredit d c =
     (if payment totalCredit d c > epsilon then payment totalCredit d c else 0)"

section \<open>Sample ledgers\<close>

text \<open>
  Four participants; a second participant record that reuses the id of the first; a rate
  table that knows the base currency only, and one that also has a rate of 2 for the euro.
\<close>

definition alice :: Participant where
  "alice = \<lparr>p_id = 1, p_name = ''A''\<rparr>"

definition bob :: Participant where
  "bob = \<lparr>p_id = 2, p_name = ''B''\<rparr>"

definition carol :: Participant where
  "carol = \<lparr>p_id = 3, p_name = ''C''\<rparr>"

definition dave :: Participant where
  "dave = \<lparr>p_id = 4, p_name = ''D''\<rparr>"

definition alice2 :: Participant where
  "alice2 = \<lparr>p_id = 1, p_name = ''A2''\<rparr>"

definition usdOnly :: "(string \<rightharpoonup> real) option" where
  "usdOnly = Some [''USD'' \<mapsto> 1]"

definition usdEur :: "(string \<rightharpoonup> real) option" where
  "usdEur = Some [''USD'' \<mapsto> 1, ''EUR'' \<mapsto> 2]"

text \<open>
  Expenses: one shared by all three, one shared by a single other participant, one in a
  currency without rate, one in euros, one without sharers, three whose payer is nobody's
  id.
\<close>

definition dinner :: Expense where
  "dinner = \<lparr>e_id = 10, description = ''dinner'', e_amount = 90, currency = ''USD'',
              paidById = 1, sharedByIds = [1, 2, 3]\<rparr>"

definition soloTreat :: Expense where
  "soloTreat = \<lparr>e_id = 11, description = ''treat'', e_amount = 10, currency = ''USD'',
              paidById = 1, sharedByIds = []\<rparr>"

definition lunch :: Expense where
  "lunch = \<lparr>e_id = 12, description = ''lunch'', e_amount = 90, currency = ''USD'',
              paidById = 1, sharedByIds = [2]\<rparr>"

definition taxi :: Expense where
  "taxi = \<lparr>e_id = 13, description = ''taxi'', e_amount = 100, currency = ''XYZ'',
              paidById = 2, sharedByIds = [1, 2]\<rparr>"

definition hotel :: Expense where
  "hotel = \<lparr>e_id = 17, description = ''hotel'', e_amount = 10, currency = ''EUR'',
              paidById = 2, sharedByIds = [1, 2]\<rparr>"

definition ghostTaxi :: Expense where
  "ghostTaxi = \<lparr>e_id = 14, description = ''taxi'', e_amount = 40, currency = ''USD'',
              paidById = 99, sharedByIds = [1, 2]\<rparr>"

definition ghostTea :: Expense where
  "ghostTea = \<lparr>e_id = 15, description = ''tea'', e_amount = 6, currency = ''USD'',
              paidById = 98, sharedByIds = [2]\<rparr>"

definition ghostGift :: Expense where
  "ghostGift = \<lparr>e_id = 16, description = ''gift'', e_amount = 10, currency = ''USD'',
              paidById = 99, sharedByIds = []\<rparr>"

definition sampleLedger :: Ledger where
  "sampleLedger = \<lparr>participants = [alice, bob, carol], expenses = [dinner, lunch, taxi]\<rparr>"

text \<open>An expense input with a negative amount and an unknown sharer, and two form states.\<close>

definition refund :: ExpenseInput where
  "refund = \<lparr>i_description = ''refund'', i_amount = - 5, i_currency = ''USD'',
             i_paidById = 1, i_sharedByIds = [7]\<rparr>"

definition zeroForm :: ExpenseForm where
  "zeroForm = \<lparr>f_description = ''museum'', f_numericAmount = Some 0, f_currency = ''USD'',
             f_paidById = Some 1, f_sharedByIds = [1, 2]\<rparr>"

definition museumForm :: ExpenseForm where
  "museumForm = \<lparr>f_description = ''museum'', f_numericAmount = Some 24, f_currency = ''USD'',
             f_paidById = Some 1, f_sharedByIds = [1, 2]\<rparr>"



definition stallBalances :: "Balance list" where
  "stallBalances =
     [\<lparr>participant = alice, amount = 24 / 1000\<rparr>,
      \<lparr>participant = dave, amount = 4 / 1000\<rparr>,
      \<lparr>participant = bob, amount = - (14 / 1000)\<rparr>,
      \<lparr>participant = carol, amount = - (14 / 1000)\<rparr>]"

definition leftoverBalances :: "Balance list" where
  "leftoverBalances =
     [\<lparr>participant = \<lparr>p_id = 1, p_name = ''X1''\<rparr>, amount = 1\<rparr>,
      \<lparr>participant = \<lparr>p_id = 2, p_name = ''X2''\<rparr>, amount = 1\<rparr>,
      \<lparr>participant = \<lparr>p_id = 3, p_name = ''X3''\<rparr>, amount = 16 / 1000\<rparr>,
      \<lparr>participant = \<lparr>p_id = 4, p_name = ''Y1''\<rparr>, amount = - (1008 / 1000)\<rparr>,
      \<lparr>participant = \<lparr>p_id = 5, p_name = ''Y2''\<rparr>, amount = - (1008 / 1000)\<rparr>]"



text \<open>
  Two ledgers that the forms can produce, all amounts in the base currency: the balances
  of the first are \<open>stallBalances\<close>, those of the second \<open>leftoverBalances\<close>.
\<close>

definition stallLedger :: Ledger where
  "stallLedger =
     \<lparr>participants = [alice, bob, carol, dave],
      expenses =
        [\<lparr>e_id = 21, description = ''stamp'', e_amount = 14 / 1000, currency = ''USD'',
          paidById = 1, sharedByIds = [2]\<rparr>,
         \<lparr>e_id = 22, description = ''gum'', e_amount = 10 / 1000, currency = ''USD'',
          paidById = 1, sharedByIds = [3]\<rparr>,
         \<lparr>e_id = 23, description = ''pin'', e_amount = 4 / 1000, currency = ''USD'',
          paidById = 4, sharedByIds = [3]\<rparr>]\<rparr>"

definition leftoverLedger :: Ledger where
  "leftoverLedger =
     \<lparr>participants =
        [\<lparr>p_id = 1, p_name = ''X1''\<rparr>, \<lparr>p_id = 2, p_name = ''X2''\<rparr>,
         \<lparr>p_id = 3, p_name = ''X3''\<rparr>, \<lparr>p_id = 4, p_name = ''Y1''\<rparr>,
         \<lparr>p_id = 5, p_name = ''Y2''\<rparr>],
      expenses =
        [\<lparr>e_id = 31, description = ''ticket'', e_amount = 1, currency = ''USD'',
          paidById = 1, sharedByIds = [4]\<rparr>,
         \<lparr>e_id = 32, description = ''ticket'', e_amount = 1, currency = ''USD'',
          paidById = 2, sharedByIds = [5]\<rparr>,
         \<lparr>e_id = 33, description = ''tip'', e_amount = 16 / 1000, currency = ''USD'',
          paidById = 3, sharedByIds = [4, 5]\<rparr>]\<rparr>"

section \<open>Unfolding the samples\<close>

lemmas sample_defs = alice_def bob_def carol_def dave_def alice2_def usdOnly_def usdEur_def hotel_def dinner_def
  soloTreat_def lunch_def taxi_def ghostTaxi_def ghostTea_def ghostGift_def sampleLedger_def

lemmas balances_eval = balances_def truthy_def initialMap_def convertToBase_def
  applyExpense_def debitShare_def getOrZero_def


section \<open>Conversion\<close>

text \<open>
  C9. Converting an amount from the base currency to the base currency returns the amount
  unchanged, whatever the rate table is, the absent table included: the result is a number,
  never the not-a-number value or an exception, and it does not depend on the table, so no
  rate is looked up.
\<close>

theorem convertToBase_identity:
  "convertToBase baseCurrency conversionRates x baseCurrency = Number x"
  by (simp add: convertToBase_def)

section \<open>What the loop of the balance computation computes\<close>

text \<open>
  Every entry of the initial map reads as zero, and each update changes the reading of a
  key by a known amount. With a table present the loop never raises, and the reading of
  each key at the end is its reading at the start plus \<open>net\<close>.
\<close>

lemma getOrZero_initialMap: "getOrZero (initialMap ps) k = 0"
proof -
  have "map_of (rev (map (\<lambda>p. (p_id p, 0::real)) ps)) k = None
      \<or> map_of (rev (map (\<lambda>p. (p_id p, 0::real)) ps)) k = Some 0"
    by (cases "map_of (rev (map (\<lambda>p. (p_id p, 0::real)) ps)) k")
       (auto dest!: map_of_SomeD)
  then show ?thesis by (auto simp: getOrZero_def initialMap_def)
qed

lemma getOrZero_debitShare:
  "getOrZero (debitShare s j m) k = getOrZero m k - (if k = j then s else 0)"
  by (simp add: getOrZero_def debitShare_def)

lemma getOrZero_fold_debitShare:
  "getOrZero (fold (debitShare s) js m) k = getOrZero m k - s * real (count_list js k)"
  by (induction js arbitrary: m) (auto simp: getOrZero_debitShare algebra_simps)

lemma getOrZero_applyExpense:
  "getOrZero (applyExpense v e m) k =
     getOrZero m k + (if paidById e = k then v else 0)
       - v / real (length (sharedByIds e)) * real (count_list (sharedByIds e) k)"
  by (simp add: applyExpense_def Let_def getOrZero_fold_debitShare) (simp add: getOrZero_def)

lemma expensesLoop_net:
  "\<exists>m'. expensesLoop baseCurrency (Some rates) es m = Inr m'
        \<and> (\<forall>k. getOrZero m' k = getOrZero m k + net baseCurrency rates es k)"
proof (induction es arbitrary: m)
  case Nil
  then show ?case by (simp add: net_def)
next
  case (Cons e es)
  show ?case
  proof (cases "convertToBase baseCurrency (Some rates) (e_amount e) (currency e)")
    case (Number v)
    from Cons.IH [of "applyExpense v e m"] obtain m' where
      m': "expensesLoop baseCurrency (Some rates) es (applyExpense v e m) = Inr m'"
          "\<And>k. getOrZero m' k = getOrZero (applyExpense v e m) k + net baseCurrency rates es k"
      by blast
    show ?thesis
      using Number m' by (simp add: net_def contribution_def getOrZero_applyExpense)
  next
    case NaN
    from Cons.IH [of m] show ?thesis
      using NaN by (simp add: net_def contribution_def)
  next
    case Throws
    then show ?thesis by (simp add: convertToBase_def split: if_splits option.splits)
  qed
qed

lemma balances_net:
  assumes "ps \<noteq> []" "\<not> truthy ratesError"
  shows "balances ps es baseCurrency (Some rates) ratesError =
           Inr (sort_key (\<lambda>b. - amount b)
                  (map (\<lambda>p. \<lparr>participant = p, amount = net baseCurrency rates es (p_id p)\<rparr>) ps))"
proof -
  obtain m' where m': "expensesLoop baseCurrency (Some rates) es (initialMap ps) = Inr m'"
      "\<And>k. getOrZero m' k = getOrZero (initialMap ps) k + net baseCurrency rates es k"
    using expensesLoop_net by blast
  show ?thesis using assms m' by (simp add: balances_def getOrZero_initialMap)
qed

text \<open>
  Sums over the participant list. An id is counted once for each participant carrying it,
  so the sums are those one expects exactly when the ids are pairwise distinct.
\<close>

lemma count_list_distinct:
  "distinct xs \<Longrightarrow> count_list xs j = (if j \<in> set xs then 1 else 0)"
  by (induction xs) auto

lemma sum_list_payer:
  "(\<Sum>p\<leftarrow>ps. if j = p_id p then v else (0::real)) = v * real (count_list (map p_id ps) j)"
  by (induction ps) (auto simp: algebra_simps)

lemma sum_list_count_swap:
  "(\<Sum>p\<leftarrow>ps. real (count_list js (f p))) = (\<Sum>j\<leftarrow>js. real (count_list (map f ps) j))"
proof (induction js)
  case Nil
  then show ?case by simp
next
  case (Cons j js)
  have "(\<Sum>p\<leftarrow>ps. real (count_list (j # js) (f p)))
      = (\<Sum>p\<leftarrow>ps. real (count_list js (f p))) + (\<Sum>p\<leftarrow>ps. if j = f p then 1 else 0)"
    by (induction ps) auto
  also have "(\<Sum>p\<leftarrow>ps. if j = f p then 1 else (0::real)) = real (count_list (map f ps) j)"
    by (induction ps) auto
  finally show ?case using Cons.IH by simp
qed

lemma sum_list_sharers_live:
  assumes "distinct (map p_id ps)" "\<forall>j\<in>set js. live ps j"
  shows "(\<Sum>p\<leftarrow>ps. real (count_list js (p_id p))) = real (length js)"
proof -
  have "(\<Sum>j\<leftarrow>js. real (count_list (map p_id ps) j)) = (\<Sum>j\<leftarrow>js. 1)"
    using assms by (intro arg_cong [where f = sum_list] map_cong)
      (auto simp: count_list_distinct live_def)
  then show ?thesis by (simp add: sum_list_count_swap sum_list_triv)
qed

lemma contribution_total:
  "(\<Sum>p\<leftarrow>ps. contribution baseCurrency rates e (p_id p)) =
     (case convertToBase baseCurrency (Some rates) (e_amount e) (currency e) of
        Number v \<Rightarrow> v * real (count_list (map p_id ps) (paidById e))
                     - v / real (length (sharedByIds e))
                       * (\<Sum>p\<leftarrow>ps. real (count_list (sharedByIds e) (p_id p)))
      | _ \<Rightarrow> 0)"
proof (cases "convertToBase baseCurrency (Some rates) (e_amount e) (currency e)")
  case (Number v)
  let ?c = "v / real (length (sharedByIds e))"
  have "(\<Sum>p\<leftarrow>ps. contribution baseCurrency rates e (p_id p))
      = (\<Sum>p\<leftarrow>ps. (if paidById e = p_id p then v else 0)
            - ?c * real (count_list (sharedByIds e) (p_id p)))"
    using Number by (simp add: contribution_def)
  also have "\<dots> = (\<Sum>p\<leftarrow>ps. if paidById e = p_id p then v else 0)
        - (\<Sum>p\<leftarrow>ps. ?c * real (count_list (sharedByIds e) (p_id p)))"
    by (rule sum_list_subtractf)
  also have "(\<Sum>p\<leftarrow>ps. ?c * real (count_list (sharedByIds e) (p_id p)))
        = ?c * (\<Sum>p\<leftarrow>ps. real (count_list (sharedByIds e) (p_id p)))"
    by (rule sum_list_const_mult)
  finally show ?thesis
    using Number by (simp only: sum_list_payer conversion.case)
qed (simp_all add: contribution_def)

lemma net_total:
  "(\<Sum>p\<leftarrow>ps. net baseCurrency rates es (p_id p))
     = (\<Sum>e\<leftarrow>es. \<Sum>p\<leftarrow>ps. contribution baseCurrency rates e (p_id p))"
  by (induction es) (simp_all add: net_def sum_list_addf)

lemma total_sort_key: "total (sort_key f bs) = total bs"
proof -
  have "sum_mset (image_mset amount (mset (sort_key f bs)))
      = sum_mset (image_mset amount (mset bs))"
    by simp
  then show ?thesis
    unfolding total_def by (metis mset_map sum_mset_sum_list)
qed

lemma total_balances:
  assumes "ps \<noteq> []" "\<not> truthy ratesError"
  shows "\<exists>bs. balances ps es baseCurrency (Some rates) ratesError = Inr bs
           \<and> length bs = length ps
           \<and> total bs = (\<Sum>e\<leftarrow>es. \<Sum>p\<leftarrow>ps. contribution baseCurrency rates e (p_id p))"
  using assms
  by (simp add: balances_net total_sort_key)
     (simp add: total_def comp_def net_total)

lemma contribution_wellFormed:
  assumes "distinct (map p_id ps)" "wellFormed ps e"
  shows "(\<Sum>p\<leftarrow>ps. contribution baseCurrency rates e (p_id p)) = 0"
proof (cases "convertToBase baseCurrency (Some rates) (e_amount e) (currency e)")
  case (Number v)
  have payer: "count_list (map p_id ps) (paidById e) = 1"
    using assms by (simp add: count_list_distinct wellFormed_def live_def)
  have sharers: "(\<Sum>p\<leftarrow>ps. real (count_list (sharedByIds e) (p_id p))) = real (length (sharedByIds e))"
    using assms by (intro sum_list_sharers_live) (auto simp: wellFormed_def list_all_iff)
  have "length (sharedByIds e) \<noteq> 0"
    using assms by (simp add: wellFormed_def)
  then show ?thesis
    using Number by (simp add: contribution_total payer sharers)
qed (simp_all add: contribution_total)

lemma total_wellFormed:
  assumes "distinct (map p_id ps)" "list_all (wellFormed ps) es"
  shows "\<exists>bs. balances ps es baseCurrency conversionRates ratesError = Inr bs \<and> total bs = 0"
proof (cases "ps = [] \<or> conversionRates = None \<or> truthy ratesError")
  case True
  then show ?thesis by (auto simp: balances_def total_def)
next
  case False
  then obtain rates where rates: "conversionRates = Some rates" by auto
  from False obtain bs where bs:
    "balances ps es baseCurrency (Some rates) ratesError = Inr bs"
    "total bs = (\<Sum>e\<leftarrow>es. \<Sum>p\<leftarrow>ps. contribution baseCurrency rates e (p_id p))"
    using total_balances [of ps ratesError es baseCurrency rates] by auto
  have "(\<Sum>e\<leftarrow>es. \<Sum>p\<leftarrow>ps. contribution baseCurrency rates e (p_id p)) = (\<Sum>e\<leftarrow>es. 0)"
    using assms
    by (intro arg_cong [where f = sum_list] map_cong)
       (auto simp: contribution_wellFormed list_all_iff)
  then show ?thesis using bs rates by simp
qed

lemma balances_dinner:
  "balances [alice, bob, carol] [dinner] ''USD'' usdOnly None =
     Inr [\<lparr>participant = alice, amount = 60\<rparr>, \<lparr>participant = bob, amount = - 30\<rparr>,
          \<lparr>participant = carol, amount = - 30\<rparr>]"
  by (simp add: balances_def usdOnly_def truthy_def initialMap_def alice_def bob_def carol_def
      dinner_def convertToBase_def applyExpense_def debitShare_def getOrZero_def)

section \<open>Zero sum\<close>

text \<open>
  C1, as stated, fails on two kinds of ledger that satisfy its hypotheses. An expense
  without sharers credits its payer and debits nobody: the only balance is 10. Two
  participant records with the same id share one map entry, which the output reports
  twice: the balances are 90, 90 and -90. In both ledgers the payer and every sharer are
  live and the table has the rate of the only currency in use.
\<close>

theorem balances_zero_sum_counterexample:
  "live [alice] (paidById soloTreat) \<and> list_all (live [alice]) (sharedByIds soloTreat)
   \<and> balances [alice] [soloTreat] ''USD'' usdOnly None = Inr [\<lparr>participant = alice, amount = 10\<rparr>]
   \<and> total [\<lparr>participant = alice, amount = 10\<rparr>] = 10
   \<and> live [alice, alice2, bob] (paidById lunch)
   \<and> list_all (live [alice, alice2, bob]) (sharedByIds lunch)
   \<and> balances [alice, alice2, bob] [lunch] ''USD'' usdOnly None =
        Inr [\<lparr>participant = alice, amount = 90\<rparr>, \<lparr>participant = alice2, amount = 90\<rparr>,
             \<lparr>participant = bob, amount = - 90\<rparr>]
   \<and> total [\<lparr>participant = alice, amount = 90\<rparr>, \<lparr>participant = alice2, amount = 90\<rparr>,
             \<lparr>participant = bob, amount = - 90\<rparr>] = 90
   \<and> \<not> \<bar>10 :: real\<bar> \<le> epsilon \<and> \<not> \<bar>90 :: real\<bar> \<le> epsilon"
  by (simp add: sample_defs balances_eval live_def total_def epsilon_def)

text \<open>
  C1, amended. When the participant ids are pairwise distinct and every expense has a live
  payer, live sharers and at least one sharer, the computation returns a balance list and
  the amounts of that list sum to zero, hence to less than the tolerance in absolute
  value. This holds for every base currency and every state of the rate table: an expense
  whose currency has no rate is skipped as a whole, and without a table the list is empty.
\<close>

theorem balances_zero_sum:
  assumes "distinct (map p_id ps)"
    and "\<forall>e\<in>set es. live ps (paidById e) \<and> (\<forall>j\<in>set (sharedByIds e). live ps j)
                       \<and> sharedByIds e \<noteq> []"
  shows "\<exists>bs. balances ps es baseCurrency conversionRates ratesError = Inr bs
           \<and> total bs = 0 \<and> \<bar>total bs\<bar> < epsilon"
proof -
  have "list_all (wellFormed ps) es"
    using assms(2) by (simp add: list_all_iff wellFormed_def)
  from total_wellFormed [OF assms(1) this]
  obtain bs where "balances ps es baseCurrency conversionRates ratesError = Inr bs" "total bs = 0"
    by blast
  then show ?thesis by (simp add: epsilon_def)
qed

theorem balances_zero_sum_witness:
  "\<exists>bs. balances [alice, bob, carol] [dinner] ''USD'' usdOnly None = Inr bs
      \<and> total bs = 0 \<and> \<bar>total bs\<bar> < epsilon"
  using balances_zero_sum [of "[alice, bob, carol]" "[dinner]" "''USD''" usdOnly None]
  by (simp add: alice_def bob_def carol_def dinner_def live_def)

section \<open>Expenses without a rate\<close>

lemma expensesLoop_skip:
  assumes "convertToBase baseCurrency conversionRates (e_amount e) (currency e) = NaN"
  shows "expensesLoop baseCurrency conversionRates (xs @ e # ys) m
       = expensesLoop baseCurrency conversionRates (xs @ ys) m"
  using assms by (induction xs arbitrary: m) (auto split: conversion.splits)

lemma amountOf_sorted:
  assumes "p \<in> set ps"
  shows "amountOf (sort_key g (map (\<lambda>p. \<lparr>participant = p, amount = f p\<rparr>) ps)) p = f p"
proof -
  let ?bs = "sort_key g (map (\<lambda>p. \<lparr>participant = p, amount = f p\<rparr>) ps)"
  have "\<lparr>participant = p, amount = f p\<rparr> \<in> set ?bs"
    using assms by auto
  then have "find (\<lambda>b. participant b = p) ?bs \<noteq> None"
    by (auto simp: find_None_iff simp del: set_sort)
  then obtain c where c: "find (\<lambda>b. participant b = p) ?bs = Some c" by auto
  then have "c \<in> set ?bs" "participant c = p"
    by (auto simp: find_Some_iff simp del: set_sort)
  then have "amount c = f p" by auto
  with c show ?thesis by (simp add: amountOf_def)
qed

lemma net_insert:
  "net baseCurrency rates (xs @ e # ys) k
     = net baseCurrency rates (xs @ ys) k + contribution baseCurrency rates e k"
  by (simp add: net_def)

text \<open>
  The change an expense makes, written out: the amount itself in the base currency, the
  amount times the rate in a currency that has one, nothing otherwise.
\<close>

lemma contribution_explicit:
  "contribution baseCurrency rates x k =
     (if currency x = baseCurrency then effect (e_amount x) x k
      else case rates (currency x) of
             None \<Rightarrow> 0
           | Some rate \<Rightarrow> effect (e_amount x * rate) x k)"
  by (simp add: contribution_def convertToBase_def effect_def split: option.splits)

lemma net_explicit:
  "net baseCurrency rates es k =
     (\<Sum>x\<leftarrow>es. if currency x = baseCurrency then effect (e_amount x) x k
              else case rates (currency x) of
                     None \<Rightarrow> 0
                   | Some rate \<Rightarrow> effect (e_amount x * rate) x k)"
  unfolding net_def by (simp only: contribution_explicit)

lemma balances_hotel:
  "balances [alice, bob, carol] [taxi, dinner, hotel] ''USD'' usdEur None =
     Inr [\<lparr>participant = alice, amount = 50\<rparr>, \<lparr>participant = bob, amount = - 20\<rparr>,
          \<lparr>participant = carol, amount = - 30\<rparr>]"
  by (simp add: sample_defs balances_eval)

text \<open>
  C6. With a rate table present, an expense whose currency is not the base currency and
  has no entry in the table changes nothing: the computation returns a balance list (it
  does not raise), and that list is the one computed from the ledger without the expense.
  Every other expense contributes as usual: when there are participants and no error
  message, the list has one entry per participant, and the amount of each participant is
  the sum over the other expenses of the effect of the expense's amount, taken as it is in
  the base currency and multiplied by its rate in a currency that has one; an expense
  whose currency has no rate adds nothing.
\<close>

theorem balances_skip_unconverted:
  assumes "conversionRates = Some rates"
    and "currency e \<noteq> baseCurrency" and "rates (currency e) = None"
  shows "balances ps (xs @ e # ys) baseCurrency conversionRates ratesError
           = balances ps (xs @ ys) baseCurrency conversionRates ratesError
         \<and> (\<exists>bs. balances ps (xs @ e # ys) baseCurrency conversionRates ratesError = Inr bs
              \<and> (ps \<noteq> [] \<and> \<not> truthy ratesError \<longrightarrow>
                   length bs = length ps
                   \<and> (\<forall>p\<in>set ps. amountOf bs p =
                        (\<Sum>x\<leftarrow>xs @ ys.
                           if currency x = baseCurrency then effect (e_amount x) x (p_id p)
                           else case rates (currency x) of
                                  None \<Rightarrow> 0
                                | Some rate \<Rightarrow> effect (e_amount x * rate) x (p_id p)))))"
proof -
  have nan: "convertToBase baseCurrency conversionRates (e_amount e) (currency e) = NaN"
    using assms by (simp add: convertToBase_def)
  have same: "balances ps (xs @ e # ys) baseCurrency conversionRates ratesError
           = balances ps (xs @ ys) baseCurrency conversionRates ratesError"
    by (simp add: balances_def expensesLoop_skip [OF nan])
  show ?thesis
  proof (cases "ps \<noteq> [] \<and> \<not> truthy ratesError")
    case False
    obtain m' where "expensesLoop baseCurrency (Some rates) (xs @ e # ys) (initialMap ps) = Inr m'"
      using expensesLoop_net by blast
    then have "\<exists>bs. balances ps (xs @ e # ys) baseCurrency conversionRates ratesError = Inr bs"
      using assms(1) by (simp add: balances_def)
    with same False show ?thesis by auto
  next
    case True
    let ?bs = "sort_key (\<lambda>b. - amount b)
      (map (\<lambda>p. \<lparr>participant = p, amount = net baseCurrency rates (xs @ ys) (p_id p)\<rparr>) ps)"
    have eq: "balances ps (xs @ e # ys) baseCurrency conversionRates ratesError = Inr ?bs"
      using True assms(1) unfolding same by (simp add: balances_net)
    have len: "length ?bs = length ps" by simp
    have each: "\<forall>p\<in>set ps. amountOf ?bs p =
        (\<Sum>x\<leftarrow>xs @ ys.
           if currency x = baseCurrency then effect (e_amount x) x (p_id p)
           else case rates (currency x) of
                  None \<Rightarrow> 0
                | Some rate \<Rightarrow> effect (e_amount x * rate) x (p_id p))"
    proof
      fix p assume "p \<in> set ps"
      then have "amountOf ?bs p = net baseCurrency rates (xs @ ys) (p_id p)"
        by (rule amountOf_sorted)
      then show "amountOf ?bs p =
        (\<Sum>x\<leftarrow>xs @ ys.
           if currency x = baseCurrency then effect (e_amount x) x (p_id p)
           else case rates (currency x) of
                  None \<Rightarrow> 0
                | Some rate \<Rightarrow> effect (e_amount x * rate) x (p_id p))"
        by (simp only: net_explicit)
    qed
    from same eq len each show ?thesis by blast
  qed
qed

theorem balances_skip_unconverted_witness:
  "balances [alice, bob, carol] [taxi, dinner, hotel] ''USD'' usdEur None
     = balances [alice, bob, carol] [dinner, hotel] ''USD'' usdEur None
   \<and> (\<exists>bs. balances [alice, bob, carol] [taxi, dinner, hotel] ''USD'' usdEur None = Inr bs
         \<and> length bs = 3
         \<and> amountOf bs alice = 50 \<and> amountOf bs bob = - 20 \<and> amountOf bs carol = - 30)"
proof -
  have hyps: "usdEur = Some [''USD'' \<mapsto> 1, ''EUR'' \<mapsto> 2]"
    "currency taxi \<noteq> ''USD''"
    "[''USD'' \<mapsto> 1, ''EUR'' \<mapsto> (2::real)] (currency taxi) = None"
    by (simp_all add: usdEur_def taxi_def)
  from balances_skip_unconverted [OF hyps, of "[alice, bob, carol]" "[]" "[dinner, hotel]" None]
  obtain bs where
    same: "balances [alice, bob, carol] [taxi, dinner, hotel] ''USD'' usdEur None
         = balances [alice, bob, carol] [dinner, hotel] ''USD'' usdEur None"
    and bs: "balances [alice, bob, carol] [taxi, dinner, hotel] ''USD'' usdEur None = Inr bs"
    and len: "length bs = length [alice, bob, carol]"
    and each: "\<forall>p\<in>set [alice, bob, carol]. amountOf bs p =
        (\<Sum>x\<leftarrow>[] @ [dinner, hotel].
           if currency x = ''USD'' then effect (e_amount x) x (p_id p)
           else case [''USD'' \<mapsto> 1, ''EUR'' \<mapsto> (2::real)] (currency x) of
                  None \<Rightarrow> 0
                | Some rate \<Rightarrow> effect (e_amount x * rate) x (p_id p))"
    by (auto simp: truthy_def)
  have amounts: "amountOf bs alice = 50 \<and> amountOf bs bob = - 20 \<and> amountOf bs carol = - 30"
    using each by (simp add: effect_def dinner_def hotel_def alice_def bob_def carol_def)
  have three: "length bs = 3"
    using len by simp
  from same bs three amounts show ?thesis by blast
qed

section \<open>Rates unavailable\<close>





section \<open>Shape of the result\<close>

lemma net_unreferenced:
  assumes "\<forall>e\<in>set es. paidById e \<noteq> k \<and> k \<notin> set (sharedByIds e)"
  shows "net baseCurrency rates es k = 0"
  using assms
  by (induction es) (auto simp: net_def contribution_def split: conversion.splits)

text \<open>
  C8. With a rate table present and no error message, the computation returns a list that
  has exactly one balance per participant (the participants of the list, as a multiset,
  are the participant list), in which every participant that no expense names as payer or
  sharer has amount zero, and whose amounts are in descending order.
\<close>

theorem balances_shape:
  assumes "conversionRates = Some rates" and "\<not> truthy ratesError"
  shows "\<exists>bs. balances ps es baseCurrency conversionRates ratesError = Inr bs
           \<and> length bs = length ps
           \<and> mset (map participant bs) = mset ps
           \<and> (\<forall>b\<in>set bs. (\<forall>e\<in>set es. paidById e \<noteq> p_id (participant b)
                                  \<and> p_id (participant b) \<notin> set (sharedByIds e))
                             \<longrightarrow> amount b = 0)
           \<and> sorted_wrt (\<lambda>a b. amount a \<ge> amount b) bs"
proof (cases "ps = []")
  case True
  then show ?thesis by (simp add: balances_def)
next
  case False
  let ?raw = "map (\<lambda>p. \<lparr>participant = p, amount = net baseCurrency rates es (p_id p)\<rparr>) ps"
  let ?bs = "sort_key (\<lambda>b. - amount b) ?raw"
  have eq: "balances ps es baseCurrency conversionRates ratesError = Inr ?bs"
    using False assms by (simp add: balances_net)
  have len: "length ?bs = length ps" by simp
  have "mset (map participant ?bs) = image_mset participant (mset ?raw)"
    by simp
  also have "\<dots> = mset ps"
    by (simp add: image_mset.compositionality comp_def)
  finally have perm: "mset (map participant ?bs) = mset ps" .
  have zero: "amount b = 0"
    if "b \<in> set ?bs"
      and "\<forall>e\<in>set es. paidById e \<noteq> p_id (participant b) \<and> p_id (participant b) \<notin> set (sharedByIds e)"
    for b
  proof -
    from that(1) obtain p where "b = \<lparr>participant = p, amount = net baseCurrency rates es (p_id p)\<rparr>"
      by auto
    with that(2) show ?thesis by (simp add: net_unreferenced)
  qed
  have "sorted (map (\<lambda>b. - amount b) ?bs)"
    by (rule sorted_sort_key)
  then have desc: "sorted_wrt (\<lambda>a b. amount a \<ge> amount b) ?bs"
    by (simp add: sorted_map)
  show ?thesis
    using eq len perm zero desc by blast
qed

theorem balances_shape_witness:
  "\<exists>bs. balances [alice, bob, carol] [lunch] ''USD'' usdOnly None = Inr bs
           \<and> length bs = 3
           \<and> mset (map participant bs) = mset [alice, bob, carol]
           \<and> amountOf bs carol = 0
           \<and> sorted_wrt (\<lambda>a b. amount a \<ge> amount b) bs"
proof -
  have unref: "\<forall>e\<in>set [lunch]. paidById e \<noteq> p_id carol \<and> p_id carol \<notin> set (sharedByIds e)"
    by (simp add: lunch_def carol_def)
  from balances_shape [of usdOnly "[''USD'' \<mapsto> 1]" None "[alice, bob, carol]" "[lunch]" "''USD''"]
  obtain bs where bs: "balances [alice, bob, carol] [lunch] ''USD'' usdOnly None = Inr bs"
    "length bs = length [alice, bob, carol]"
    "mset (map participant bs) = mset [alice, bob, carol]"
    "\<forall>b\<in>set bs. (\<forall>e\<in>set [lunch]. paidById e \<noteq> p_id (participant b)
                                  \<and> p_id (participant b) \<notin> set (sharedByIds e))
                             \<longrightarrow> amount b = 0"
    "sorted_wrt (\<lambda>a b. amount a \<ge> amount b) bs"
    by (auto simp: usdOnly_def truthy_def)
  have "carol \<in> set (map participant bs)"
    using bs(3) by (metis list.set_intros(1,2) mset_eq_setD)
  then obtain b where b: "b \<in> set bs" "participant b = carol" by auto
  then have "find (\<lambda>b. participant b = carol) bs \<noteq> None"
    by (auto simp: find_None_iff)
  then obtain c where c: "find (\<lambda>b. participant b = carol) bs = Some c" by auto
  then have "c \<in> set bs" "participant c = carol"
    by (auto simp: find_Some_iff)
  with bs(4) unref have "amount c = 0" by simp
  with c have "amountOf bs carol = 0" by (simp add: amountOf_def)
  with bs show ?thesis by auto
qed

section \<open>An expense whose payer is nobody\<close>

lemma contribution_dangling:
  assumes "distinct (map p_id ps)"
    and "convertToBase baseCurrency (Some rates) (e_amount e) (currency e) = Number v"
    and "\<not> live ps (paidById e)" and "sharedByIds e \<noteq> []"
    and "list_all (live ps) (sharedByIds e)"
  shows "(\<Sum>p\<leftarrow>ps. contribution baseCurrency rates e (p_id p)) = - v"
proof -
  have payer: "count_list (map p_id ps) (paidById e) = 0"
    using assms(3) by (simp add: live_def)
  have sharers: "(\<Sum>p\<leftarrow>ps. real (count_list (sharedByIds e) (p_id p))) = real (length (sharedByIds e))"
    using assms by (intro sum_list_sharers_live) (auto simp: list_all_iff)
  have "length (sharedByIds e) \<noteq> 0"
    using assms(4) by simp
  then show ?thesis
    using assms(2) by (simp add: contribution_total payer sharers)
qed

text \<open>
  C10, as stated, fails on three ledgers that satisfy its hypotheses. With two expenses
  whose payers are unknown the sum is -46, neither -40 nor -6. An expense of 10 with an
  unknown payer and no sharer leaves the sum at 0. With two participant records of the
  same id the expense of 40 is debited three times 20, and the sum is -60.
\<close>

theorem balances_dangling_payer_counterexample:
  "balances [alice, bob] [ghostTaxi, ghostTea] ''USD'' usdOnly None =
       Inr [\<lparr>participant = alice, amount = - 20\<rparr>, \<lparr>participant = bob, amount = - 26\<rparr>]
   \<and> total [\<lparr>participant = alice, amount = - 20\<rparr>, \<lparr>participant = bob, amount = - 26\<rparr>] = - 46
   \<and> balances [alice] [ghostGift] ''USD'' usdOnly None = Inr [\<lparr>participant = alice, amount = 0\<rparr>]
   \<and> total [\<lparr>participant = alice, amount = 0\<rparr>] = 0
   \<and> balances [alice, alice2, bob] [ghostTaxi] ''USD'' usdOnly None =
       Inr [\<lparr>participant = alice, amount = - 20\<rparr>, \<lparr>participant = alice2, amount = - 20\<rparr>,
            \<lparr>participant = bob, amount = - 20\<rparr>]
   \<and> total [\<lparr>participant = alice, amount = - 20\<rparr>, \<lparr>participant = alice2, amount = - 20\<rparr>,
            \<lparr>participant = bob, amount = - 20\<rparr>] = - 60
   \<and> convertToBase ''USD'' usdOnly (e_amount ghostTaxi) (currency ghostTaxi) = Number 40
   \<and> convertToBase ''USD'' usdOnly (e_amount ghostTea) (currency ghostTea) = Number 6
   \<and> convertToBase ''USD'' usdOnly (e_amount ghostGift) (currency ghostGift) = Number 10"
  by (simp add: sample_defs balances_eval total_def)

text \<open>
  C10, amended. Let the participant ids be pairwise distinct, the table present without
  error, and let an expense convert to \<open>v\<close>, have a payer that is no participant's id, and
  a sharer list that is not empty and names live participants only. Then the computation
  returns a balance list with exactly one entry per participant, as it does for the ledger
  without that expense; compared with the latter, every participant is debited
  \<open>v / |sharedByIds|\<close> once for each time the sharer list names it, and the sum of the
  amounts is lower by \<open>v\<close>. When all other expenses are well formed the sum is \<open>- v\<close>.
  In the balance map the credit \<open>v\<close> is added under the payer's id, which no entry of the
  output reads.
\<close>

theorem balances_dangling_payer:
  assumes "distinct (map p_id ps)"
    and "conversionRates = Some rates" and "\<not> truthy ratesError"
    and "convertToBase baseCurrency conversionRates (e_amount e) (currency e) = Number v"
    and "\<not> live ps (paidById e)"
    and "sharedByIds e \<noteq> []" and "list_all (live ps) (sharedByIds e)"
  shows "\<exists>bs bs'. balances ps (xs @ e # ys) baseCurrency conversionRates ratesError = Inr bs
           \<and> balances ps (xs @ ys) baseCurrency conversionRates ratesError = Inr bs'
           \<and> length bs = length ps
           \<and> mset (map participant bs) = mset ps
           \<and> (\<forall>p\<in>set ps. amountOf bs p = amountOf bs' p
                  - v / real (length (sharedByIds e)) * real (count_list (sharedByIds e) (p_id p)))
           \<and> total bs = total bs' - v
           \<and> (list_all (wellFormed ps) (xs @ ys) \<longrightarrow> total bs = - v)
           \<and> (\<exists>m m'. expensesLoop baseCurrency conversionRates (xs @ e # ys) (initialMap ps) = Inr m
                  \<and> expensesLoop baseCurrency conversionRates (xs @ ys) (initialMap ps) = Inr m'
                  \<and> getOrZero m (paidById e) = getOrZero m' (paidById e) + v)"
proof -
  have ne: "ps \<noteq> []"
    using assms(6,7) by (cases "sharedByIds e") (auto simp: live_def)
  let ?mk = "\<lambda>es. sort_key (\<lambda>b. - amount b)
      (map (\<lambda>p. \<lparr>participant = p, amount = net baseCurrency rates es (p_id p)\<rparr>) ps)"
  let ?bs = "?mk (xs @ e # ys)" and ?bs' = "?mk (xs @ ys)"
  have eq: "balances ps (xs @ e # ys) baseCurrency conversionRates ratesError = Inr ?bs"
    and eq': "balances ps (xs @ ys) baseCurrency conversionRates ratesError = Inr ?bs'"
    using ne assms(2,3) by (simp_all add: balances_net)
  have len: "length ?bs = length ps" by simp
  have "mset (map participant ?bs) = image_mset participant (mset (map
      (\<lambda>p. \<lparr>participant = p, amount = net baseCurrency rates (xs @ e # ys) (p_id p)\<rparr>) ps))"
    by simp
  also have "\<dots> = mset ps"
    by (simp add: image_mset.compositionality comp_def)
  finally have perm: "mset (map participant ?bs) = mset ps" .
  have each: "amountOf ?bs p = amountOf ?bs' p
      - v / real (length (sharedByIds e)) * real (count_list (sharedByIds e) (p_id p))"
    if "p \<in> set ps" for p
  proof -
    have "paidById e \<noteq> p_id p"
      using that assms(5) by (auto simp: live_def)
    then have "contribution baseCurrency rates e (p_id p)
        = - (v / real (length (sharedByIds e)) * real (count_list (sharedByIds e) (p_id p)))"
      using assms(2,4) by (simp add: contribution_def)
    then show ?thesis
      using that by (simp add: amountOf_sorted net_insert)
  qed
  have tot: "total ?bs = total ?bs' - v"
  proof -
    have "total ?bs = (\<Sum>p\<leftarrow>ps. net baseCurrency rates (xs @ e # ys) (p_id p))"
      by (simp add: total_sort_key) (simp add: total_def comp_def)
    also have "\<dots> = (\<Sum>p\<leftarrow>ps. net baseCurrency rates (xs @ ys) (p_id p))
        + (\<Sum>p\<leftarrow>ps. contribution baseCurrency rates e (p_id p))"
      by (simp add: net_insert sum_list_addf)
    also have "(\<Sum>p\<leftarrow>ps. net baseCurrency rates (xs @ ys) (p_id p)) = total ?bs'"
      by (simp add: total_sort_key) (simp add: total_def comp_def)
    finally show ?thesis
      using contribution_dangling [OF assms(1) _ assms(5,6,7), of baseCurrency rates v] assms(2,4)
      by simp
  qed
  have "total ?bs = - v" if "list_all (wellFormed ps) (xs @ ys)"
  proof -
    from total_wellFormed [OF assms(1) that, of baseCurrency conversionRates ratesError] eq'
    have "total ?bs' = 0" by auto
    with tot show ?thesis by simp
  qed
  then have sum: "list_all (wellFormed ps) (xs @ ys) \<longrightarrow> total ?bs = - v" ..
  have recorded: "\<exists>m m'. expensesLoop baseCurrency conversionRates (xs @ e # ys) (initialMap ps) = Inr m
      \<and> expensesLoop baseCurrency conversionRates (xs @ ys) (initialMap ps) = Inr m'
      \<and> getOrZero m (paidById e) = getOrZero m' (paidById e) + v"
  proof -
    obtain m where m: "expensesLoop baseCurrency (Some rates) (xs @ e # ys) (initialMap ps) = Inr m"
      "\<And>k. getOrZero m k = getOrZero (initialMap ps) k + net baseCurrency rates (xs @ e # ys) k"
      using expensesLoop_net by blast
    obtain m' where m': "expensesLoop baseCurrency (Some rates) (xs @ ys) (initialMap ps) = Inr m'"
      "\<And>k. getOrZero m' k = getOrZero (initialMap ps) k + net baseCurrency rates (xs @ ys) k"
      using expensesLoop_net by blast
    have "paidById e \<notin> set (sharedByIds e)"
      using assms(5,7) by (auto simp: list_all_iff)
    then have "count_list (sharedByIds e) (paidById e) = 0"
      by simp
    then have "contribution baseCurrency rates e (paidById e) = v"
      using assms(2,4) by (simp add: contribution_def)
    then have "getOrZero m (paidById e) = getOrZero m' (paidById e) + v"
      by (simp add: m(2) m'(2) net_insert)
    with m(1) m'(1) assms(2) show ?thesis by auto
  qed
  from eq eq' len perm each tot sum recorded show ?thesis by blast
qed

theorem balances_dangling_payer_witness:
  "\<exists>bs. balances [alice, bob, carol] [dinner, ghostTaxi] ''USD'' usdOnly None = Inr bs
      \<and> length bs = 3 \<and> amountOf bs alice = 40 \<and> amountOf bs bob = - 50
      \<and> amountOf bs carol = - 30 \<and> total bs = - 40"
proof -
  let ?ps = "[alice, bob, carol]"
  have hyps: "distinct (map p_id ?ps)" "usdOnly = Some [''USD'' \<mapsto> 1]" "\<not> truthy None"
    "convertToBase ''USD'' usdOnly (e_amount ghostTaxi) (currency ghostTaxi) = Number 40"
    "\<not> live ?ps (paidById ghostTaxi)" "sharedByIds ghostTaxi \<noteq> []"
    "list_all (live ?ps) (sharedByIds ghostTaxi)"
    by (simp_all add: sample_defs truthy_def convertToBase_def live_def)
  have wf: "list_all (wellFormed ?ps) ([dinner] @ [])"
    by (simp add: sample_defs wellFormed_def live_def)
  from balances_dangling_payer [OF hyps, of "[dinner]" "[]"] obtain bs bs' where
    bs: "balances ?ps [dinner, ghostTaxi] ''USD'' usdOnly None = Inr bs"
    and bs': "balances ?ps [dinner] ''USD'' usdOnly None = Inr bs'"
    and len: "length bs = length ?ps"
    and each: "\<forall>p\<in>set ?ps. amountOf bs p = amountOf bs' p
        - 40 / real (length (sharedByIds ghostTaxi)) * real (count_list (sharedByIds ghostTaxi) (p_id p))"
    and tot: "list_all (wellFormed ?ps) ([dinner] @ []) \<longrightarrow> total bs = - 40"
    by auto
  from bs' have bs'_eq: "bs' = [\<lparr>participant = alice, amount = 60\<rparr>,
      \<lparr>participant = bob, amount = - 30\<rparr>, \<lparr>participant = carol, amount = - 30\<rparr>]"
    by (simp add: balances_dinner)
  have "amountOf bs alice = 40" "amountOf bs bob = - 50" "amountOf bs carol = - 30"
    using each by (simp_all add: bs'_eq amountOf_def sample_defs)
  with bs len tot wf show ?thesis by simp
qed


section \<open>Removing a participant\<close>

text \<open>
  C4. \<open>removeParticipant i\<close> removes the participants with id \<open>i\<close>. The expenses that remain
  are, in their order, the expenses that \<open>i\<close> did not pay and that have a sharer other than
  \<open>i\<close>, each with \<open>i\<close> removed from its sharer list and nothing else changed. So an
  expense paid by \<open>i\<close> is deleted, an expense whose sharers are \<open>i\<close> alone is deleted, and
  no remaining expense has an empty sharer list or mentions \<open>i\<close>.
\<close>

theorem removeParticipant_cascade:
  "participants (removeParticipant i l) = filter (\<lambda>p. p_id p \<noteq> i) (participants l)
   \<and> expenses (removeParticipant i l) =
       map (\<lambda>ex. ex\<lparr>sharedByIds := filter (\<lambda>pId. pId \<noteq> i) (sharedByIds ex)\<rparr>)
         (filter (\<lambda>ex. paidById ex \<noteq> i \<and> (\<exists>pId\<in>set (sharedByIds ex). pId \<noteq> i)) (expenses l))
   \<and> (\<forall>ex\<in>set (expenses (removeParticipant i l)).
         i \<notin> set (sharedByIds ex) \<and> sharedByIds ex \<noteq> [] \<and> paidById ex \<noteq> i)
   \<and> (\<forall>p\<in>set (participants (removeParticipant i l)). p_id p \<noteq> i)"
proof -
  have nonempty: "(filter (\<lambda>pId. pId \<noteq> i) js \<noteq> []) = (\<exists>pId\<in>set js. pId \<noteq> i)" for js :: "int list"
    by (simp add: filter_empty_conv)
  have exps: "expenses (removeParticipant i l) =
       map (\<lambda>ex. ex\<lparr>sharedByIds := filter (\<lambda>pId. pId \<noteq> i) (sharedByIds ex)\<rparr>)
         (filter (\<lambda>ex. paidById ex \<noteq> i \<and> (\<exists>pId\<in>set (sharedByIds ex). pId \<noteq> i)) (expenses l))"
    by (simp add: removeParticipant_def Let_def filter_map comp_def nonempty)
  have inv: "\<forall>ex\<in>set (expenses (removeParticipant i l)).
         i \<notin> set (sharedByIds ex) \<and> sharedByIds ex \<noteq> [] \<and> paidById ex \<noteq> i"
    unfolding exps by (auto simp: filter_empty_conv)
  have ps: "participants (removeParticipant i l) = filter (\<lambda>p. p_id p \<noteq> i) (participants l)"
    by (simp add: removeParticipant_def Let_def)
  have gone: "\<forall>p\<in>set (participants (removeParticipant i l)). p_id p \<noteq> i"
    unfolding ps by simp
  show ?thesis
    by (intro conjI ps exps inv gone)
qed

theorem removeParticipant_cascade_witness:
  "participants (removeParticipant 2 sampleLedger) = [alice, carol]
   \<and> expenses (removeParticipant 2 sampleLedger) = [dinner\<lparr>sharedByIds := [1, 3]\<rparr>]"
  using removeParticipant_cascade [of 2 sampleLedger]
  by (simp add: sample_defs)

section \<open>Adding an expense\<close>

text \<open>
  C5, as stated, fails: \<open>addExpense\<close> appends an expense with a negative amount and a
  sharer that is no participant's id, and the balance computation then uses it.
\<close>

theorem addExpense_unchecked_counterexample:
  "addExpense refund 1000 \<lparr>participants = [alice], expenses = []\<rparr> =
     \<lparr>participants = [alice],
      expenses = [\<lparr>e_id = 1000, description = ''refund'', e_amount = - 5, currency = ''USD'',
                   paidById = 1, sharedByIds = [7]\<rparr>]\<rparr>
   \<and> balances [alice]
        (expenses (addExpense refund 1000 \<lparr>participants = [alice], expenses = []\<rparr>))
        ''USD'' usdOnly None = Inr [\<lparr>participant = alice, amount = - 5\<rparr>]"
  by (simp add: addExpense_def refund_def sample_defs balances_eval)

text \<open>
  C5, amended. The checks are in the only caller, \<open>handleSubmit\<close>, and the rejection is
  silent: the ledger is returned unchanged when the description is empty, the parsed
  amount is not a number or not above zero, the payer is undefined or \<open>0\<close>, or no sharer
  is ticked. Otherwise \<open>handleSubmit\<close> calls \<open>addExpense\<close>, which for every input keeps the
  participants and appends the expense under the id read from the clock; no check
  compares payer or sharers with the participants. The ids of the expenses stay pairwise
  distinct exactly when they were and no expense already carries the clock reading.
\<close>

theorem handleSubmit_guard:
  "((f_description form = [] \<or> f_numericAmount form = None
       \<or> (\<exists>a. f_numericAmount form = Some a \<and> a \<le> 0)
       \<or> f_paidById form = None \<or> f_paidById form = Some 0 \<or> f_sharedByIds form = [])
      \<longrightarrow> handleSubmit form now l = l)
   \<and> ((f_description form \<noteq> [] \<and> f_numericAmount form = Some a \<and> a > 0
        \<and> f_paidById form = Some payer \<and> payer \<noteq> 0 \<and> f_sharedByIds form \<noteq> [])
      \<longrightarrow> handleSubmit form now l =
            addExpense \<lparr>i_description = f_description form, i_amount = a,
              i_currency = f_currency form, i_paidById = payer,
              i_sharedByIds = f_sharedByIds form\<rparr> now l)
   \<and> participants (addExpense expense now l) = participants l
   \<and> expenses (addExpense expense now l) = expenses l @
        [\<lparr>e_id = now, description = i_description expense, e_amount = i_amount expense,
          currency = i_currency expense, paidById = i_paidById expense,
          sharedByIds = i_sharedByIds expense\<rparr>]
   \<and> distinct (map e_id (expenses (addExpense expense now l)))
       = (distinct (map e_id (expenses l)) \<and> now \<notin> set (map e_id (expenses l)))"
proof (intro conjI impI)
  assume "f_description form = [] \<or> f_numericAmount form = None
       \<or> (\<exists>a. f_numericAmount form = Some a \<and> a \<le> 0)
       \<or> f_paidById form = None \<or> f_paidById form = Some 0 \<or> f_sharedByIds form = []"
  then show "handleSubmit form now l = l"
    by (auto simp: handleSubmit_def split: option.splits)
next
  assume "f_description form \<noteq> [] \<and> f_numericAmount form = Some a \<and> a > 0
        \<and> f_paidById form = Some payer \<and> payer \<noteq> 0 \<and> f_sharedByIds form \<noteq> []"
  then show "handleSubmit form now l =
            addExpense \<lparr>i_description = f_description form, i_amount = a,
              i_currency = f_currency form, i_paidById = payer,
              i_sharedByIds = f_sharedByIds form\<rparr> now l"
    by (simp add: handleSubmit_def)
next
  show "distinct (map e_id (expenses (addExpense expense now l)))
       = (distinct (map e_id (expenses l)) \<and> now \<notin> set (map e_id (expenses l)))"
    by (auto simp: addExpense_def)
qed (simp_all add: addExpense_def)

theorem handleSubmit_guard_witness:
  "handleSubmit zeroForm 1000 sampleLedger = sampleLedger
   \<and> expenses (handleSubmit museumForm 1000 sampleLedger) =
       [dinner, lunch, taxi,
        \<lparr>e_id = 1000, description = ''museum'', e_amount = 24, currency = ''USD'',
         paidById = 1, sharedByIds = [1, 2]\<rparr>]"
  using handleSubmit_guard [of zeroForm 1000 sampleLedger 0 1 refund]
    handleSubmit_guard [of museumForm 1000 sampleLedger 24 1
      "\<lparr>i_description = ''museum'', i_amount = 24, i_currency = ''USD'', i_paidById = 1,
        i_sharedByIds = [1, 2]\<rparr>"]
  by (simp add: zeroForm_def museumForm_def sampleLedger_def)

section \<open>The simplified loop from the indices on\<close>

text \<open>
  One run of the loop body, read off at the indices, and the agreement of \<open>settleLoop\<close>
  with \<open>greedy\<close>: the loop returns the transactions it holds followed by those that
  \<open>greedy\<close> returns for the parts of the arrays not yet passed.
\<close>

lemma drop_current:
  assumes "i < length xs"
  shows "drop i (xs[i := x]) = x # drop (Suc i) xs"
  using assms by (metis Cons_nth_drop_Suc drop_update_cancel length_list_update lessI nth_list_update_eq)

lemma settleStep_fields:
  assumes "debtorIndex s < length (debtors s)" "creditorIndex s < length (creditors s)"
  defines "d \<equiv> debtors s ! debtorIndex s" and "c \<equiv> creditors s ! creditorIndex s"
  defines "amt \<equiv> min (amount d) (amount c)"
  defines "d' \<equiv> (if amt > epsilon then d\<lparr>amount := amount d - amt\<rparr> else d)"
    and "c' \<equiv> (if amt > epsilon then c\<lparr>amount := amount c - amt\<rparr> else c)"
  shows "transactions (settleStep s) = transactions s @
           (if amt > epsilon then [\<lparr>t_from = p_name (participant d),
              t_to = p_name (participant c), t_amount = amt\<rparr>] else [])"
    and "drop (debtorIndex (settleStep s)) (debtors (settleStep s)) =
           (if amount d' < epsilon then drop (Suc (debtorIndex s)) (debtors s)
            else d' # drop (Suc (debtorIndex s)) (debtors s))"
    and "drop (creditorIndex (settleStep s)) (creditors (settleStep s)) =
           (if amount c' < epsilon then drop (Suc (creditorIndex s)) (creditors s)
            else c' # drop (Suc (creditorIndex s)) (creditors s))"
proof -
  show "transactions (settleStep s) = transactions s @
           (if amt > epsilon then [\<lparr>t_from = p_name (participant d),
              t_to = p_name (participant c), t_amount = amt\<rparr>] else [])"
    by (simp add: settleStep_def Let_def d_def c_def amt_def)
  have cur_d: "drop (debtorIndex s) (debtors s) = d # drop (Suc (debtorIndex s)) (debtors s)"
    and cur_c: "drop (creditorIndex s) (creditors s) = c # drop (Suc (creditorIndex s)) (creditors s)"
    using assms(1,2) by (simp_all add: d_def c_def Cons_nth_drop_Suc)
  show "drop (debtorIndex (settleStep s)) (debtors (settleStep s)) =
           (if amount d' < epsilon then drop (Suc (debtorIndex s)) (debtors s)
            else d' # drop (Suc (debtorIndex s)) (debtors s))"
  proof (cases "amt > epsilon")
    case True
    then show ?thesis
      using assms(1)
      by (simp add: settleStep_def Let_def d'_def drop_current
          flip: d_def c_def amt_def)
  next
    case False
    then show ?thesis
      using assms(1) cur_d
      by (simp add: settleStep_def Let_def d'_def flip: d_def c_def amt_def)
  qed
  show "drop (creditorIndex (settleStep s)) (creditors (settleStep s)) =
           (if amount c' < epsilon then drop (Suc (creditorIndex s)) (creditors s)
            else c' # drop (Suc (creditorIndex s)) (creditors s))"
  proof (cases "amt > epsilon")
    case True
    then show ?thesis
      using assms(2)
      by (simp add: settleStep_def Let_def c'_def drop_current
          flip: d_def c_def amt_def)
  next
    case False
    then show ?thesis
      using assms(2) cur_c
      by (simp add: settleStep_def Let_def c'_def flip: d_def c_def amt_def)
  qed
qed

lemma settleLoop_greedy:
  "settleLoop fuel s =
     map_option (\<lambda>rest. transactions s @ rest)
       (greedy fuel (drop (debtorIndex s) (debtors s)) (drop (creditorIndex s) (creditors s)))"
proof (induction fuel arbitrary: s)
  case 0
  then show ?case by simp
next
  case (Suc fuel)
  show ?case
  proof (cases "debtorIndex s < length (debtors s) \<and> creditorIndex s < length (creditors s)")
    case False
    then have "drop (debtorIndex s) (debtors s) = [] \<or> drop (creditorIndex s) (creditors s) = []"
      by auto
    then have "greedy (Suc fuel) (drop (debtorIndex s) (debtors s))
        (drop (creditorIndex s) (creditors s)) = Some []"
      by (cases "drop (debtorIndex s) (debtors s)") auto
    with False show ?thesis by auto
  next
    case True
    let ?i = "debtorIndex s" and ?j = "creditorIndex s"
    let ?d = "debtors s ! ?i" and ?c = "creditors s ! ?j"
    have ds: "drop ?i (debtors s) = ?d # drop (Suc ?i) (debtors s)"
      and cs: "drop ?j (creditors s) = ?c # drop (Suc ?j) (creditors s)"
      using True by (simp_all add: Cons_nth_drop_Suc)
    have tx: "transactions (settleStep s) = transactions s @ pushed ?d ?c"
      using True by (simp add: settleStep_fields pushed_def pays_def)
    have nd: "drop (debtorIndex (settleStep s)) (debtors (settleStep s))
        = keep (remainder ?d ?c) (drop (Suc ?i) (debtors s))"
      using True by (simp add: settleStep_fields keep_def remainder_def pays_def)
    have nc: "drop (creditorIndex (settleStep s)) (creditors (settleStep s))
        = keep (remainder ?c ?d) (drop (Suc ?j) (creditors s))"
      using True by (simp add: settleStep_fields keep_def remainder_def pays_def min.commute)
    have "settleLoop (Suc fuel) s = settleLoop fuel (settleStep s)"
      using True by simp
    also have "\<dots> = map_option (\<lambda>rest. transactions (settleStep s) @ rest)
       (greedy fuel (drop (debtorIndex (settleStep s)) (debtors (settleStep s)))
          (drop (creditorIndex (settleStep s)) (creditors (settleStep s))))"
      by (rule Suc.IH)
    also have "\<dots> = map_option (\<lambda>rest. transactions s @ rest)
       (greedy (Suc fuel) (?d # drop (Suc ?i) (debtors s)) (?c # drop (Suc ?j) (creditors s)))"
      by (simp only: tx nd nc greedy.simps option.map_comp comp_def append_assoc)
    finally show ?thesis by (simp only: ds cs)
  qed
qed

lemma simplified_greedy:
  "simplifiedSettleTransactions fuel bs = greedy fuel (debtorsOf bs) (creditorsOf bs)"
  by (simp add: simplifiedSettleTransactions_def settleLoop_greedy option.map_ident)

text \<open>Facts about one run of the body.\<close>

lemma epsilon_pos: "0 < epsilon"
  by (simp add: epsilon_def)

lemma participant_remainder [simp]: "participant (remainder b other) = participant b"
  by (simp add: remainder_def)

lemma nameOf_remainder [simp]: "nameOf (remainder b other) = nameOf b"
  by (simp add: nameOf_def)


lemma pays_commute: "pays c d = pays d c"
  by (simp add: pays_def min.commute)










section \<open>Number of transactions and termination\<close>


text \<open>
  The loop makes no progress when the smaller of the two current amounts is not above the
  tolerance while neither is below it, which happens when a remainder is exactly the
  tolerance: then no fuel is enough. On \<open>stallBalances\<close> the creditor is left with
  exactly 0.01 after the first payment and the second debtor is never served.
\<close>

lemma greedy_stall:
  assumes "\<not> pays d c" "\<not> amount d < epsilon" "\<not> amount c < epsilon"
  shows "greedy fuel (d # ds) (c # cs) = None"
proof (induction fuel)
  case 0
  show ?case by simp
next
  case (Suc fuel)
  have "remainder d c = d" "remainder c d = c"
    using assms(1) by (simp_all add: remainder_def pays_commute)
  with assms(2,3) Suc show ?case
    by (simp add: keep_def)
qed

lemma simplified_stall: "simplifiedSettleTransactions fuel stallBalances = None"
proof (cases fuel)
  case 0
  then show ?thesis by (simp add: simplifiedSettleTransactions_def)
next
  case (Suc n)
  let ?a = "\<lparr>participant = alice, amount = 1 / 100\<rparr>"
  let ?c = "\<lparr>participant = carol, amount = 14 / 1000\<rparr>"
  have "greedy n [?c] [?a] = None"
    by (rule greedy_stall) (simp_all add: pays_def epsilon_def)
  then show ?thesis
    using Suc
    by (simp add: simplified_greedy stallBalances_def debtorsOf_def creditorsOf_def epsilon_def
        pushed_def pays_def remainder_def keep_def)
qed

text \<open>
  These balances are those of a ledger with three expenses of 0.014, 0.01 and 0.004.
\<close>

lemma balances_stallLedger:
  "balances (participants stallLedger) (expenses stallLedger) ''USD'' usdOnly None
     = Inr stallBalances"
  by (simp add: stallLedger_def stallBalances_def sample_defs balances_eval)

text \<open>
  When all amounts are whole multiples of a unit above the tolerance, every remainder is
  zero or at least the unit, every run pays, and the loop ends.
\<close>

lemma greedy_mono:
  assumes "greedy fuel ds cs = Some txs"
  shows "greedy (fuel + k) ds cs = Some txs"
  using assms
  by (induction fuel ds cs arbitrary: txs rule: greedy.induct) auto









section \<open>Conservation\<close>

text \<open>
  The debtor side of the simplified loop is the creditor side with the parties exchanged.
\<close>

lemma swapTx_swapTx [simp]: "swapTx (swapTx t) = t"
  by (simp add: swapTx_def)




lemma paid_swap: "paid nm (map swapTx txs) = received nm txs"
  by (simp add: paid_def received_def filter_map comp_def swapTx_def)





























lemma listed_bounds:
  assumes "0 \<le> payment T d c"
  shows "payment T d c - epsilon \<le> listed T d c" "listed T d c \<le> payment T d c"
  using assms epsilon_pos by (auto simp: listed_def)







text \<open>The balances of a ledger with two tickets of 1 and a shared tip of 0.016.\<close>

lemma balances_leftoverLedger:
  "balances (participants leftoverLedger) (expenses leftoverLedger) ''USD'' usdOnly None
     = Inr leftoverBalances"
  by (simp add: leftoverLedger_def leftoverBalances_def sample_defs balances_eval)




end
